theory Spec2Isabelle
  imports Main "HOL-Library.Word"
begin

unbundle bit_operations_syntax

section \<open>Machine types\<close>

text \<open>
  The kernel is built for 32-bit x86 (ILP32): \<open>size_t\<close>, \<open>uint32_t\<close>, \<open>uintptr_t\<close> and
  every pointer are 32 bits wide, and unsigned arithmetic wraps modulo \<open>2 ^ 32\<close>.
  A pointer is the 32-bit address it holds; \<open>NULL\<close> is address 0.
\<close>

type_synonym u8 = "8 word"
type_synonym u16 = "16 word"
type_synonym u32 = "32 word"

section \<open>Interrupt layer (isr.h, isr.c)\<close>

text \<open>\<open>struct registers\<close>, the snapshot that trap entry passes to the handlers.\<close>

record registers =
  ds :: u32
  edi :: u32
  esi :: u32
  ebp :: u32
  esp :: u32
  ebx :: u32
  edx :: u32
  ecx :: u32
  eax :: u32
  int_no :: u32
  err_code :: u32
  eip :: u32
  cs :: u32
  eflags :: u32
  useresp :: u32
  ss :: u32

text \<open>
  What the layer does to the outside world, in order: port writes (\<open>outb\<close>), calls of the
  terminal collaborator, and calls of a registered handler. A handler is a function pointer;
  the type \<open>'h\<close> stands for the handler capabilities, and the effects of the handler's own
  body are not part of this layer.
\<close>

datatype 'h event =
    Outb u16 u8
  | Terminal_setcolor u8
  | Terminal_writestring string
  | Handler_call 'h registers

text \<open>
  The value of a dispatch: the events it produced, and how it ended: \<open>Some (Inr ())\<close> when
  it returns to the trap stub, \<open>None\<close> when it never returns, \<open>Some (Inl Out_of_bounds)\<close>
  when it indexes \<open>interrupt_handlers[256]\<close> outside the array (\<open>int_no\<close> is a \<open>uint32_t\<close>).
\<close>

datatype fault = Out_of_bounds

type_synonym 'h run = "'h event list \<times> (fault + unit) option"

text \<open>\<open>interrupt_handlers[256]\<close>: a null entry is \<open>None\<close>.\<close>

definition isr_init :: "'h option list" where
  "isr_init = replicate 256 None"

definition register_interrupt_handler :: "u8 \<Rightarrow> 'h option \<Rightarrow> 'h option list \<Rightarrow> 'h option list" where
  "register_interrupt_handler n handler interrupt_handlers = interrupt_handlers[unat n := handler]"

definition exception_messages :: "string list" where
  "exception_messages =
     [''Division By Zero'', ''Debug'', ''Non Maskable Interrupt'', ''Breakpoint'',
      ''Into Detected Overflow'', ''Out of Bounds'', ''Invalid Opcode'', ''No Coprocessor'',
      ''Double Fault'', ''Coprocessor Segment Overrun'', ''Bad TSS'', ''Segment Not Present'',
      ''Stack Fault'', ''General Protection Fault'', ''Page Fault'', ''Unknown Interrupt'',
      ''Coprocessor Fault'', ''Alignment Check'', ''Machine Check'', ''Reserved'',
      ''Reserved'', ''Reserved'', ''Reserved'', ''Reserved'', ''Reserved'', ''Reserved'',
      ''Reserved'', ''Reserved'', ''Reserved'', ''Reserved'', ''Reserved'', ''Reserved'']"

definition vga_entry_color :: "u8 \<Rightarrow> u8 \<Rightarrow> u8" where
  "vga_entry_color fg bg = fg OR push_bit 4 bg"

text \<open>The final loop of \<open>isr_handler\<close>: \<open>while (1) { hlt }\<close>.\<close>

partial_function (option) halt_forever :: "unit \<Rightarrow> (fault + unit) option" where
  "halt_forever u = halt_forever u"

definition isr_handler :: "'h option list \<Rightarrow> registers \<Rightarrow> 'h run" where
  "isr_handler interrupt_handlers r =
     (if length interrupt_handlers \<le> unat (int_no r) then ([], Some (Inl Out_of_bounds))
      else case interrupt_handlers ! unat (int_no r) of
             Some handler \<Rightarrow> ([Handler_call handler r], Some (Inr ()))
           | None \<Rightarrow>
               ([Terminal_setcolor (vga_entry_color 12 0),
                 Terminal_writestring ''Exception: '',
                 Terminal_writestring
                   (if int_no r < 32 then exception_messages ! unat (int_no r)
                    else ''Unknown Exception''),
                 Terminal_writestring (CHR 0x0A # ''System Halted.'' @ [CHR 0x0A])],
                halt_forever ()))"

text \<open>\<open>irq_ack\<close> takes a \<open>uint8_t\<close>: the caller's \<open>int_no - 32\<close> is truncated to 8 bits.\<close>

definition irq_ack :: "u8 \<Rightarrow> 'h event list" where
  "irq_ack irq = (if 8 \<le> irq then [Outb 0xA0 0x20] else []) @ [Outb 0x20 0x20]"

definition irq_handler :: "'h option list \<Rightarrow> registers \<Rightarrow> 'h run" where
  "irq_handler interrupt_handlers r =
     (let eoi = irq_ack (ucast (int_no r - 32))
      in if length interrupt_handlers \<le> unat (int_no r) then (eoi, Some (Inl Out_of_bounds))
         else case interrupt_handlers ! unat (int_no r) of
                Some handler \<Rightarrow> (eoi @ [Handler_call handler r], Some (Inr ()))
              | None \<Rightarrow> (eoi, Some (Inr ())))"

text \<open>A concrete snapshot for vector \<open>v\<close> and a table with two handlers, for the
  witnesses.\<close>

definition trap :: "u32 \<Rightarrow> registers" where
  "trap v = \<lparr>ds = 0x10, edi = 0, esi = 0, ebp = 0, esp = 0, ebx = 0, edx = 0, ecx = 0, eax = 0,
     int_no = v, err_code = 0, eip = 0, cs = 0x08, eflags = 0x202, useresp = 0, ss = 0x10\<rparr>"

definition demo_handlers :: "string option list" where
  "demo_handlers =
     register_interrupt_handler 44 (Some ''mouse'')
       (register_interrupt_handler 3 (Some ''breakpoint'') isr_init)"

section \<open>Interrupt layer: properties\<close>

lemma halt_forever_no_result:
  assumes "halt_forever u = Some y"
  shows False
  using assms by (rule halt_forever.raw_induct [where P = "\<lambda>_ _. False", rotated]) blast

lemma halt_forever_never_returns: "halt_forever u = None"
  using halt_forever_no_result [of u] by (cases "halt_forever u") auto

lemma irq_number:
  assumes "32 \<le> v" "v < (256 :: u32)"
  shows "(8 \<le> (ucast (v - 32) :: u8)) = (8 \<le> unat v - 32)"
proof -
  have a: "32 \<le> unat v" "unat v < 256"
    using assms by (simp_all add: word_le_nat_alt word_less_nat_alt)
  have "unat (v - 32) = unat v - 32"
    using a by (simp add: unat_sub assms(1))
  then have "unat (ucast (v - 32) :: u8) = unat v - 32"
    using a by (simp add: unsigned_ucast_eq take_bit_nat_eq_self)
  then show ?thesis
    by (simp add: word_le_nat_alt)
qed

text \<open>
  C4. For every vector from 32 to 255 (the vectors that the 256-entry table and the
  hardware know), \<open>irq_handler\<close> first sends the End-Of-Interrupt byte \<open>0x20\<close>, to the slave
  PIC (port \<open>0xA0\<close>) exactly when the IRQ number \<open>vector - 32\<close> is at least 8, and then always
  to the master PIC (port \<open>0x20\<close>); only after that does it call the registered handler, and
  the EOI is sent also when no handler is registered.
\<close>

theorem irq_eoi_before_handler:
  assumes "length interrupt_handlers = 256" and "32 \<le> int_no r" and "int_no r < 256"
  shows "irq_handler interrupt_handlers r =
           ((if 8 \<le> unat (int_no r) - 32 then [Outb 0xA0 0x20] else []) @
            [Outb 0x20 0x20] @
            (case interrupt_handlers ! unat (int_no r) of
               None \<Rightarrow> [] | Some handler \<Rightarrow> [Handler_call handler r]),
            Some (Inr ()))"
proof -
  have "unat (int_no r) < 256"
    using assms(3) by (simp add: word_less_nat_alt)
  then show ?thesis
    using assms(1) irq_number [OF assms(2,3)]
    by (simp add: irq_handler_def irq_ack_def Let_def split: option.splits)
qed

lemma exception_messages_table:
  "exception_messages =
     [''Division By Zero'', ''Debug'', ''Non Maskable Interrupt'', ''Breakpoint'',
      ''Into Detected Overflow'', ''Out of Bounds'', ''Invalid Opcode'', ''No Coprocessor'',
      ''Double Fault'', ''Coprocessor Segment Overrun'', ''Bad TSS'', ''Segment Not Present'',
      ''Stack Fault'', ''General Protection Fault'', ''Page Fault'', ''Unknown Interrupt'',
      ''Coprocessor Fault'', ''Alignment Check'', ''Machine Check''] @
     replicate 13 ''Reserved''"
  unfolding exception_messages_def by code_simp

lemma exception_messages_length: "length exception_messages = 32"
  by (simp add: exception_messages_table)

lemma exception_name:
  "n < 32 \<Longrightarrow>
   exception_messages ! n =
     (if 19 \<le> n then ''Reserved''
      else [''Division By Zero'', ''Debug'', ''Non Maskable Interrupt'', ''Breakpoint'',
            ''Into Detected Overflow'', ''Out of Bounds'', ''Invalid Opcode'',
            ''No Coprocessor'', ''Double Fault'', ''Coprocessor Segment Overrun'', ''Bad TSS'',
            ''Segment Not Present'', ''Stack Fault'', ''General Protection Fault'',
            ''Page Fault'', ''Unknown Interrupt'', ''Coprocessor Fault'', ''Alignment Check'',
            ''Machine Check''] ! n)"
  by (simp only: exception_messages_table nth_append) simp

text \<open>
  C5, as stated, fails on the code for the vectors below 32 that have no name of their own:
  the table \<open>exception_messages\<close> has an entry for each of the 32 vectors, and for vectors
  19 to 31 that entry is "Reserved". Vector 19, unhandled, is reported as "Reserved", not as
  "Unknown Exception".
\<close>

theorem reserved_vector_is_not_unknown:
  "int_no (trap 19) < 32 \<and> demo_handlers ! unat (int_no (trap 19)) = None \<and>
   isr_handler demo_handlers (trap 19) =
     ([Terminal_setcolor 12, Terminal_writestring ''Exception: '',
       Terminal_writestring ''Reserved'',
       Terminal_writestring (CHR 0x0A # ''System Halted.'' @ [CHR 0x0A])], None) \<and>
   ''Reserved'' \<noteq> ''Unknown Exception''"
  by (simp add: trap_def demo_handlers_def register_interrupt_handler_def isr_init_def
        isr_handler_def halt_forever_never_returns vga_entry_color_def exception_name)

text \<open>
  C5, amended. For a vector below 32 with no registered handler, \<open>isr_handler\<close> prints the
  fixed entry of its 32-entry name table: the canonical name for vectors 0 to 18
  ("Division By Zero", ..., "Machine Check") and "Reserved" for vectors 19 to 31; then it
  never returns. "Unknown Exception" is what an unhandled vector from 32 on is reported as,
  with the same halt. If a handler is registered, that handler is called and \<open>isr_handler\<close>
  returns.
\<close>

theorem unhandled_exception_halts:
  assumes "unat (int_no r) < length interrupt_handlers"
  shows "(int_no r < 32 \<and> interrupt_handlers ! unat (int_no r) = None \<longrightarrow>
            isr_handler interrupt_handlers r =
              ([Terminal_setcolor 12, Terminal_writestring ''Exception: '',
                Terminal_writestring
                  (if 19 \<le> unat (int_no r) then ''Reserved''
                   else [''Division By Zero'', ''Debug'', ''Non Maskable Interrupt'',
                         ''Breakpoint'', ''Into Detected Overflow'', ''Out of Bounds'',
                         ''Invalid Opcode'', ''No Coprocessor'', ''Double Fault'',
                         ''Coprocessor Segment Overrun'', ''Bad TSS'', ''Segment Not Present'',
                         ''Stack Fault'', ''General Protection Fault'', ''Page Fault'',
                         ''Unknown Interrupt'', ''Coprocessor Fault'', ''Alignment Check'',
                         ''Machine Check''] ! unat (int_no r)),
                Terminal_writestring (CHR 0x0A # ''System Halted.'' @ [CHR 0x0A])], None)) \<and>
         (32 \<le> int_no r \<and> interrupt_handlers ! unat (int_no r) = None \<longrightarrow>
            isr_handler interrupt_handlers r =
              ([Terminal_setcolor 12, Terminal_writestring ''Exception: '',
                Terminal_writestring ''Unknown Exception'',
                Terminal_writestring (CHR 0x0A # ''System Halted.'' @ [CHR 0x0A])], None)) \<and>
         (\<forall>handler. interrupt_handlers ! unat (int_no r) = Some handler \<longrightarrow>
            isr_handler interrupt_handlers r = ([Handler_call handler r], Some (Inr ())))"
proof -
  have "exception_messages ! unat (int_no r) =
      (if 19 \<le> unat (int_no r) then ''Reserved''
       else [''Division By Zero'', ''Debug'', ''Non Maskable Interrupt'',
             ''Breakpoint'', ''Into Detected Overflow'', ''Out of Bounds'',
             ''Invalid Opcode'', ''No Coprocessor'', ''Double Fault'',
             ''Coprocessor Segment Overrun'', ''Bad TSS'', ''Segment Not Present'',
             ''Stack Fault'', ''General Protection Fault'', ''Page Fault'',
             ''Unknown Interrupt'', ''Coprocessor Fault'', ''Alignment Check'',
             ''Machine Check''] ! unat (int_no r))"
    if "int_no r < 32"
    using that by (intro exception_name) (simp add: word_less_nat_alt)
  then show ?thesis
    using assms
    by (auto simp add: isr_handler_def halt_forever_never_returns vga_entry_color_def
          simp del: nth_Cons_numeral)
qed

lemma demo_handlers_eval:
  "length demo_handlers = 256"
  "demo_handlers ! 44 = Some ''mouse''"
  "demo_handlers ! 3 = Some ''breakpoint''"
  "demo_handlers ! 0 = None"
  "demo_handlers ! 14 = None"
  "demo_handlers ! 200 = None"
  "demo_handlers ! 33 = None"
  by (simp_all add: demo_handlers_def register_interrupt_handler_def isr_init_def
        nth_list_update)

theorem irq_eoi_before_handler_witness:
  "length demo_handlers = 256 \<and> 32 \<le> int_no (trap 44) \<and> int_no (trap 44) < 256 \<and>
   irq_handler demo_handlers (trap 44) =
     ([Outb 0xA0 0x20, Outb 0x20 0x20, Handler_call ''mouse'' (trap 44)], Some (Inr ()))"
proof -
  have h1: "length demo_handlers = 256"
    by (rule demo_handlers_eval)
  have h2: "32 \<le> int_no (trap 44)" and h3: "int_no (trap 44) < 256"
    by (simp_all add: trap_def)
  have n: "unat (int_no (trap 44)) = 44"
    by (simp add: trap_def)
  show ?thesis
    using h1 h2 h3 irq_eoi_before_handler [OF h1 h2 h3]
    by (simp add: n demo_handlers_eval)
qed

theorem unhandled_exception_halts_witness:
  "unat (int_no (trap 0)) < length demo_handlers \<and> int_no (trap 0) < 32 \<and>
   demo_handlers ! unat (int_no (trap 0)) = None \<and>
   isr_handler demo_handlers (trap 0) =
     ([Terminal_setcolor 12, Terminal_writestring ''Exception: '',
       Terminal_writestring ''Division By Zero'',
       Terminal_writestring (CHR 0x0A # ''System Halted.'' @ [CHR 0x0A])], None) \<and>
   unat (int_no (trap 14)) < length demo_handlers \<and> int_no (trap 14) < 32 \<and>
   demo_handlers ! unat (int_no (trap 14)) = None \<and>
   isr_handler demo_handlers (trap 14) =
     ([Terminal_setcolor 12, Terminal_writestring ''Exception: '',
       Terminal_writestring ''Page Fault'',
       Terminal_writestring (CHR 0x0A # ''System Halted.'' @ [CHR 0x0A])], None) \<and>
   unat (int_no (trap 200)) < length demo_handlers \<and> 32 \<le> int_no (trap 200) \<and>
   demo_handlers ! unat (int_no (trap 200)) = None \<and>
   isr_handler demo_handlers (trap 200) =
     ([Terminal_setcolor 12, Terminal_writestring ''Exception: '',
       Terminal_writestring ''Unknown Exception'',
       Terminal_writestring (CHR 0x0A # ''System Halted.'' @ [CHR 0x0A])], None) \<and>
   unat (int_no (trap 3)) < length demo_handlers \<and>
   demo_handlers ! unat (int_no (trap 3)) = Some ''breakpoint'' \<and>
   isr_handler demo_handlers (trap 3) = ([Handler_call ''breakpoint'' (trap 3)], Some (Inr ()))"
proof -
  have n: "unat (int_no (trap 0)) = 0" "unat (int_no (trap 14)) = 14"
      "unat (int_no (trap 200)) = 200" "unat (int_no (trap 3)) = 3"
    by (simp_all add: trap_def)
  have b: "unat (int_no (trap 0)) < length demo_handlers"
      "unat (int_no (trap 14)) < length demo_handlers"
      "unat (int_no (trap 200)) < length demo_handlers"
      "unat (int_no (trap 3)) < length demo_handlers"
    by (simp_all add: n demo_handlers_eval)
  have v: "int_no (trap 0) < 32" "int_no (trap 14) < 32" "32 \<le> int_no (trap 200)"
    by (simp_all add: trap_def)
  show ?thesis
    using b v unhandled_exception_halts [OF b(1)] unhandled_exception_halts [OF b(2)]
      unhandled_exception_halts [OF b(3)] unhandled_exception_halts [OF b(4)]
    by (simp add: n demo_handlers_eval)
qed

section \<open>Task scheduler (scheduler.h, scheduler.c)\<close>

text \<open>
  \<open>task_t\<close> keeps the fields the scheduling code reads or branches on. The saved CPU
  context (\<open>esp\<close>, \<open>ebp\<close>, \<open>ebx\<close>, \<open>esi\<close>, \<open>edi\<close>, \<open>eflags\<close>, \<open>eip\<close>) and the private stack are
  written by \<open>task_create\<close> only; \<open>switch_to_task\<close> copies \<open>esp\<close> into a local that it never
  uses. Fields carry the prefix \<open>t_\<close> (\<open>id\<close>, \<open>next\<close> and \<open>state\<close> are taken in HOL or by the
  heap headers below).

  The global array \<open>tasks[MAX_TASKS]\<close> is a store from slot index to task; a \<open>task_t*\<close> is
  the index of the slot it points to (\<open>Some i\<close> for \<open>&tasks[i]\<close>) and \<open>NULL\<close> is \<open>None\<close>.
  The ready queue is the source's singly linked list: \<open>task_queue_head\<close>, \<open>task_queue_tail\<close>
  and the \<open>next\<close> field of each task.
\<close>

datatype task_state_t = TASK_READY | TASK_RUNNING | TASK_SLEEPING | TASK_TERMINATED

record task =
  t_id :: u32
  t_name :: "char list"
  t_state :: task_state_t
  t_time_slice :: u32
  t_time_remaining :: u32
  t_sleep_until :: u32
  t_next :: "nat option"

record sched =
  tasks :: "nat \<Rightarrow> task"
  task_queue_head :: "nat option"
  task_queue_tail :: "nat option"
  current_task :: "nat option"
  next_task_id :: u32
  system_ticks :: u32

definition MAX_TASKS :: nat where
  "MAX_TASKS = 8"

text \<open>Static storage at boot: zero-filled, except \<open>next_task_id = 1\<close>. Enum value 0 is
  \<open>TASK_READY\<close>.\<close>

definition zero_task :: task where
  "zero_task = \<lparr>t_id = 0, t_name = replicate 32 (CHR 0x00), t_state = TASK_READY,
     t_time_slice = 0, t_time_remaining = 0, t_sleep_until = 0, t_next = None\<rparr>"

definition sched_boot :: sched where
  "sched_boot = \<lparr>tasks = (\<lambda>_. zero_task), task_queue_head = None, task_queue_tail = None,
     current_task = None, next_task_id = 1, system_ticks = 0\<rparr>"

text \<open>\<open>scheduler_init\<close>: the two console messages go to the terminal collaborator and are
  not part of the scheduler state.\<close>

definition scheduler_init :: "sched \<Rightarrow> sched" where
  "scheduler_init s =
     (fold (\<lambda>i s'. s'\<lparr>tasks := (tasks s')(i := (tasks s' i)\<lparr>t_state := TASK_TERMINATED, t_id := 0\<rparr>)\<rparr>)
        [0..<MAX_TASKS] s)
       \<lparr>task_queue_head := None, task_queue_tail := None, current_task := None,
        system_ticks := 0\<rparr>"

definition task_queue_add :: "nat \<Rightarrow> sched \<Rightarrow> sched" where
  "task_queue_add task s =
     (let s1 = s\<lparr>tasks := (tasks s)(task := (tasks s task)\<lparr>t_next := None\<rparr>)\<rparr>
      in case task_queue_tail s1 of
           Some tail \<Rightarrow>
             s1\<lparr>tasks := (tasks s1)(tail := (tasks s1 tail)\<lparr>t_next := Some task\<rparr>),
                task_queue_tail := Some task\<rparr>
         | None \<Rightarrow> s1\<lparr>task_queue_head := Some task, task_queue_tail := Some task\<rparr>)"

definition task_queue_remove_next :: "sched \<Rightarrow> nat option \<times> sched" where
  "task_queue_remove_next s =
     (case task_queue_head s of
        None \<Rightarrow> (None, s)
      | Some task \<Rightarrow>
          let s1 = s\<lparr>task_queue_head := t_next (tasks s task)\<rparr>;
              s2 = (if task_queue_head s1 = None then s1\<lparr>task_queue_tail := None\<rparr> else s1)
          in (Some task, s2\<lparr>tasks := (tasks s2)(task := (tasks s2 task)\<lparr>t_next := None\<rparr>)\<rparr>))"

text \<open>\<open>switch_to_task\<close> is bookkeeping only: the source carries no context switch
  ("simulate task switching without actual assembly") and returns to its caller.\<close>

definition switch_to_task :: "nat \<Rightarrow> sched \<Rightarrow> sched" where
  "switch_to_task task s =
     (let s1 = s\<lparr>tasks := (tasks s)(task := (tasks s task)\<lparr>t_state := TASK_RUNNING\<rparr>)\<rparr>;
          s2 = s1\<lparr>tasks := (tasks s1)(task :=
                 (tasks s1 task)\<lparr>t_time_remaining := t_time_slice (tasks s1 task)\<rparr>)\<rparr>
      in s2\<lparr>current_task := Some task\<rparr>)"

definition schedule :: "sched \<Rightarrow> sched" where
  "schedule s =
     (case task_queue_remove_next s of
        (None, s1) \<Rightarrow> s1
      | (Some next_task, s1) \<Rightarrow>
          let s2 = (case current_task s1 of
                      None \<Rightarrow> s1
                    | Some c \<Rightarrow>
                        if t_state (tasks s1 c) = TASK_RUNNING
                        then let s1a = s1\<lparr>tasks := (tasks s1)(c :=
                                         (tasks s1 c)\<lparr>t_state := TASK_READY\<rparr>)\<rparr>;
                                 s1b = s1a\<lparr>tasks := (tasks s1a)(c :=
                                         (tasks s1a c)\<lparr>t_time_remaining :=
                                            t_time_slice (tasks s1a c)\<rparr>)\<rparr>
                             in task_queue_add c s1b
                        else s1)
          in switch_to_task next_task s2)"

text \<open>One pass of the wake-up loop of \<open>scheduler_tick\<close> for slot \<open>i\<close>.\<close>

definition wake_slot :: "nat \<Rightarrow> sched \<Rightarrow> sched" where
  "wake_slot i s =
     (if t_state (tasks s i) = TASK_SLEEPING \<and> t_sleep_until (tasks s i) \<le> system_ticks s
      then task_queue_add i (s\<lparr>tasks := (tasks s)(i := (tasks s i)\<lparr>t_state := TASK_READY\<rparr>)\<rparr>)
      else s)"

definition wake_tasks :: "sched \<Rightarrow> sched" where
  "wake_tasks s = fold wake_slot [0..<MAX_TASKS] s"

text \<open>The second half of \<open>scheduler_tick\<close>: slice accounting behind the guard
  \<open>current_task && system_ticks > 100\<close>.\<close>

definition tick_slice :: "sched \<Rightarrow> sched" where
  "tick_slice s =
     (case current_task s of
        None \<Rightarrow> s
      | Some c \<Rightarrow>
          if system_ticks s > 100
          then let s1 = s\<lparr>tasks := (tasks s)(c :=
                          (tasks s c)\<lparr>t_time_remaining := t_time_remaining (tasks s c) - 1\<rparr>)\<rparr>
               in if t_time_remaining (tasks s1 c) = 0 then schedule s1 else s1
          else s)"

definition scheduler_tick :: "sched \<Rightarrow> sched" where
  "scheduler_tick s = tick_slice (wake_tasks (s\<lparr>system_ticks := system_ticks s + 1\<rparr>))"

definition task_yield :: "sched \<Rightarrow> sched" where
  "task_yield s = schedule s"

definition task_sleep :: "u32 \<Rightarrow> sched \<Rightarrow> sched" where
  "task_sleep ticks s =
     (case current_task s of
        None \<Rightarrow> s
      | Some c \<Rightarrow>
          let s1 = s\<lparr>tasks := (tasks s)(c := (tasks s c)\<lparr>t_state := TASK_SLEEPING\<rparr>)\<rparr>;
              s2 = s1\<lparr>tasks := (tasks s1)(c :=
                     (tasks s1 c)\<lparr>t_sleep_until := system_ticks s1 + ticks\<rparr>)\<rparr>
          in schedule s2)"

text \<open>\<open>task_exit\<close>. The value is \<open>Some s'\<close> when the call returns to its caller in state
  \<open>s'\<close>, and \<open>None\<close> would stand for a call that does not return. The body is straight-line
  code whose only call is \<open>schedule\<close>, which returns.\<close>

definition task_exit :: "sched \<Rightarrow> sched option" where
  "task_exit s =
     (case current_task s of
        None \<Rightarrow> Some s
      | Some c \<Rightarrow>
          let s1 = s\<lparr>tasks := (tasks s)(c := (tasks s c)\<lparr>t_state := TASK_TERMINATED\<rparr>)\<rparr>;
              s2 = s1\<lparr>current_task := None\<rparr>
          in Some (schedule s2))"

text \<open>\<open>task_create\<close>: \<open>name\<close> is the C string up to its terminating NUL. The copy loop
  writes at most 32 characters over the old contents of the field and then forces
  \<open>name[31] = 0\<close>. The result is the new id, or 0 when no slot is free.\<close>

definition copy_name :: "char list \<Rightarrow> char list \<Rightarrow> char list" where
  "copy_name old name =
     (let n = min 32 (length name) in (take n name @ drop n old)[31 := CHR 0x00])"

definition task_create :: "char list \<Rightarrow> sched \<Rightarrow> u32 \<times> sched" where
  "task_create name s =
     (case find (\<lambda>i. t_state (tasks s i) = TASK_TERMINATED) [0..<MAX_TASKS] of
        None \<Rightarrow> (0, s)
      | Some i \<Rightarrow>
          let t0 = tasks s i;
              t1 = t0\<lparr>t_id := next_task_id s\<rparr>;
              s1 = s\<lparr>next_task_id := next_task_id s + 1\<rparr>;
              t2 = t1\<lparr>t_name := copy_name (t_name t1) name\<rparr>;
              t3 = t2\<lparr>t_state := TASK_READY\<rparr>;
              t4 = t3\<lparr>t_time_slice := 10\<rparr>;
              t5 = t4\<lparr>t_time_remaining := t_time_slice t4\<rparr>;
              t6 = t5\<lparr>t_sleep_until := 0\<rparr>;
              s2 = task_queue_add i (s1\<lparr>tasks := (tasks s1)(i := t6)\<rparr>)
          in (t_id (tasks s2 i), s2))"

subsection \<open>Observing a run of timer ticks\<close>

text \<open>The scheduler state before each of \<open>n\<close> timer interrupts and after the last.\<close>

fun run_ticks :: "nat \<Rightarrow> sched \<Rightarrow> sched list" where
  "run_ticks 0 s = [s]"
| "run_ticks (Suc n) s = s # run_ticks n (scheduler_tick s)"

definition running_id :: "sched \<Rightarrow> u32 option" where
  "running_id s = (case current_task s of None \<Rightarrow> None | Some c \<Rightarrow> Some (t_id (tasks s c)))"

text \<open>The execution order over \<open>n\<close> ticks: the id of the current task at each tick
  boundary, consecutive repetitions merged. \<open>None\<close> stands for "no current task".\<close>

definition execution_order :: "nat \<Rightarrow> sched \<Rightarrow> u32 option list" where
  "execution_order n s = remdups_adj (map running_id (run_ticks n s))"

text \<open>Boot, \<open>scheduler_init\<close>, then tasks A, B, C created in that order (ids 1, 2, 3; the
  slice is the constant 10 that \<open>task_create\<close> assigns).\<close>

definition three_tasks :: sched where
  "three_tasks =
     snd (task_create ''C'' (snd (task_create ''B'' (snd (task_create ''A''
       (scheduler_init sched_boot))))))"

definition no_sleepers :: "sched \<Rightarrow> bool" where
  "no_sleepers s = (\<forall>i \<in> set [0..<MAX_TASKS]. t_state (tasks s i) \<noteq> TASK_SLEEPING)"

subsection \<open>Sequences of scheduler calls\<close>

text \<open>The entry points of the scheduler as operations: a timer interrupt, and the calls
  \<open>task_yield\<close>, \<open>task_sleep\<close>, \<open>task_exit\<close> and \<open>task_create\<close>. \<open>task_sleep\<close> and \<open>task_exit\<close>
  act on \<open>current_task\<close>: they are calls made by whichever task is current.\<close>

datatype sched_op = Tick | Yield | Sleep u32 | Exit | Create "char list"

fun do_op :: "sched_op \<Rightarrow> sched \<Rightarrow> sched" where
  "do_op Tick s = scheduler_tick s"
| "do_op Yield s = task_yield s"
| "do_op (Sleep k) s = task_sleep k s"
| "do_op Exit s = (case task_exit s of Some s' \<Rightarrow> s' | None \<Rightarrow> s)"
| "do_op (Create name) s = snd (task_create name s)"

definition run :: "sched_op list \<Rightarrow> sched \<Rightarrow> sched" where
  "run ops s = fold do_op ops s"

text \<open>\<open>calls_as x a s\<close>: operation \<open>a\<close>, issued in state \<open>s\<close>, is a sleep or exit call made by
  the task in slot \<open>x\<close>. \<open>silent x ops s\<close>: in the run of \<open>ops\<close> from \<open>s\<close>, task \<open>x\<close> makes no
  such call.\<close>

fun calls_as :: "nat \<Rightarrow> sched_op \<Rightarrow> sched \<Rightarrow> bool" where
  "calls_as x (Sleep k) s = (current_task s = Some x)"
| "calls_as x Exit s = (current_task s = Some x)"
| "calls_as x _ s = False"

fun silent :: "nat \<Rightarrow> sched_op list \<Rightarrow> sched \<Rightarrow> bool" where
  "silent x [] s = True"
| "silent x (a # ops) s = (\<not> calls_as x a s \<and> silent x ops (do_op a s))"

definition ticks_in :: "sched_op list \<Rightarrow> nat" where
  "ticks_in ops = length (filter (\<lambda>a. a = Tick) ops)"

text \<open>Task \<open>x\<close> is not linked into the ready queue: neither queue pointer nor any \<open>next\<close>
  field points to it.\<close>

definition unlinked :: "sched \<Rightarrow> nat \<Rightarrow> bool" where
  "unlinked s x = (task_queue_head s \<noteq> Some x \<and> task_queue_tail s \<noteq> Some x \<and>
                   (\<forall>i. t_next (tasks s i) \<noteq> Some x))"

definition asleep :: "nat \<Rightarrow> u32 \<Rightarrow> sched \<Rightarrow> bool" where
  "asleep x w s = (t_state (tasks s x) = TASK_SLEEPING \<and> t_sleep_until (tasks s x) = w \<and>
                   unlinked s x)"


definition one_task_running :: sched where
  "one_task_running = schedule (snd (task_create ''X'' (scheduler_init sched_boot)))"

section \<open>Scheduler: properties\<close>

subsection \<open>Evaluating the scheduler on concrete states\<close>

lemma upd_sort: "c < a \<Longrightarrow> (m(a := b))(c := d) = (m(c := d))(a := (b::task))"
  for a c :: nat
  by (rule fun_upd_twist) simp

lemma slots: "[0..<MAX_TASKS] = [0, 1, 2, 3, 4, 5, 6, 7]"
  by code_simp

lemma run_ticks_numeral:
  "run_ticks (numeral k) s = s # run_ticks (pred_numeral k) (scheduler_tick s)"
  by (simp add: numeral_eq_Suc)

lemma funpow_numeral_unfold: "(f ^^ numeral k) s = (f ^^ pred_numeral k) (f s)"
  by (simp add: numeral_eq_Suc funpow_swap1)

lemmas sched_eval = scheduler_init_def task_create_def task_queue_add_def
  task_queue_remove_next_def switch_to_task_def schedule_def wake_slot_def wake_tasks_def
  tick_slice_def scheduler_tick_def task_yield_def task_sleep_def task_exit_def
  slots sched_boot_def zero_task_def copy_name_def upd_sort Let_def
  word_le_nat_alt word_less_nat_alt

text \<open>
  C10. Whenever \<open>schedule\<close> is called with an empty ready queue (\<open>task_queue_head\<close> is
  \<open>NULL\<close>), it returns leaving the whole scheduler state as it was: the current-task
  pointer, every task's state and remaining slice, and the queue pointers.
\<close>

theorem schedule_empty_queue_noop:
  "task_queue_head s = None \<Longrightarrow> schedule s = s"
  by (simp add: schedule_def task_queue_remove_next_def)

text \<open>Witness: one task created and installed, so that the queue is empty while a task is
  current.\<close>

theorem schedule_empty_queue_noop_witness:
  "task_queue_head (schedule (snd (task_create ''A'' (scheduler_init sched_boot)))) = None \<and>
   schedule (schedule (snd (task_create ''A'' (scheduler_init sched_boot)))) =
     schedule (snd (task_create ''A'' (scheduler_init sched_boot)))"
proof -
  have h: "task_queue_head (schedule (snd (task_create ''A'' (scheduler_init sched_boot)))) = None"
    by (simp add: sched_eval)
  show ?thesis
    using h schedule_empty_queue_noop [OF h] by simp
qed

subsection \<open>Ticks while no task sleeps\<close>

lemma fold_fixed: "(\<And>i. i \<in> set xs \<Longrightarrow> f i s = s) \<Longrightarrow> fold f xs s = s"
  by (induction xs) auto

lemma wake_tasks_no_sleepers: "no_sleepers s \<Longrightarrow> wake_tasks s = s"
  unfolding wake_tasks_def
  by (rule fold_fixed) (simp add: wake_slot_def no_sleepers_def)

lemma schedule_ticks:
  "schedule (s\<lparr>system_ticks := x\<rparr>) = (schedule s)\<lparr>system_ticks := x\<rparr>"
  by (simp add: schedule_def task_queue_remove_next_def task_queue_add_def switch_to_task_def
        Let_def split: option.splits)

lemma ticks_tasks_swap:
  "s\<lparr>system_ticks := x, tasks := t\<rparr> = s\<lparr>tasks := t, system_ticks := x\<rparr>"
  by simp

lemma tick_slice_ticks:
  "100 < system_ticks s \<Longrightarrow> 100 < x \<Longrightarrow>
   tick_slice (s\<lparr>system_ticks := x\<rparr>) = (tick_slice s)\<lparr>system_ticks := x\<rparr>"
  by (simp add: tick_slice_def ticks_tasks_swap schedule_ticks Let_def split: option.splits)

lemma schedule_no_sleepers: "no_sleepers s \<Longrightarrow> no_sleepers (schedule s)"
  by (simp add: no_sleepers_def schedule_def task_queue_remove_next_def task_queue_add_def
        switch_to_task_def Let_def split: option.splits)

lemma tick_slice_no_sleepers: "no_sleepers s \<Longrightarrow> no_sleepers (tick_slice s)"
  using schedule_no_sleepers [of "s\<lparr>tasks := (tasks s)(the (current_task s) :=
      (tasks s (the (current_task s)))\<lparr>t_time_remaining :=
         t_time_remaining (tasks s (the (current_task s))) - 1\<rparr>)\<rparr>"]
  by (auto simp add: tick_slice_def Let_def no_sleepers_def split: option.splits)

lemma tick_no_sleepers:
  "no_sleepers s \<Longrightarrow>
   scheduler_tick s = tick_slice (s\<lparr>system_ticks := system_ticks s + 1\<rparr>)"
  by (simp add: scheduler_tick_def wake_tasks_no_sleepers no_sleepers_def)

lemma tick_keeps_no_sleepers: "no_sleepers s \<Longrightarrow> no_sleepers (scheduler_tick s)"
proof -
  assume ns: "no_sleepers s"
  then have "no_sleepers (s\<lparr>system_ticks := system_ticks s + 1\<rparr>)"
    by (simp add: no_sleepers_def)
  then show ?thesis
    using ns by (simp add: tick_no_sleepers tick_slice_no_sleepers)
qed

lemma schedule_counter: "system_ticks (schedule s) = system_ticks s"
proof -
  have "system_ticks (schedule (s\<lparr>system_ticks := system_ticks s\<rparr>)) = system_ticks s"
    by (simp only: schedule_ticks) simp
  then show ?thesis by simp
qed

lemma tick_slice_counter: "system_ticks (tick_slice s) = system_ticks s"
  by (simp add: tick_slice_def schedule_counter Let_def split: option.splits)

lemma tick_counter:
  "no_sleepers s \<Longrightarrow> system_ticks (scheduler_tick s) = system_ticks s + 1"
  by (simp add: tick_no_sleepers tick_slice_counter)

lemma past_grace: "100 \<le> n \<Longrightarrow> n < 2 ^ 32 - 1 \<Longrightarrow> 100 < (of_nat n + 1 :: u32)"
  by (simp add: word_less_nat_alt unat_word_ariths unat_of_nat take_bit_nat_eq_self)

text \<open>Past the grace window and without sleepers, a tick does the same whatever the value
  of the counter.\<close>

lemma tick_shift:
  assumes "no_sleepers s" "100 \<le> n" "n < 2 ^ 32 - 1" "100 \<le> m" "m < 2 ^ 32 - 1"
  shows "scheduler_tick (s\<lparr>system_ticks := of_nat n\<rparr>) =
         (scheduler_tick (s\<lparr>system_ticks := of_nat m\<rparr>))\<lparr>system_ticks := of_nat (Suc n)\<rparr>"
proof -
  have ns: "no_sleepers (s\<lparr>system_ticks := x\<rparr>)" for x
    using assms(1) by (simp add: no_sleepers_def)
  have "tick_slice (s\<lparr>system_ticks := of_nat m + 1\<rparr>\<lparr>system_ticks := of_nat n + 1\<rparr>) =
        (tick_slice (s\<lparr>system_ticks := of_nat m + 1\<rparr>))\<lparr>system_ticks := of_nat n + 1\<rparr>"
    using past_grace [OF assms(2,3)] past_grace [OF assms(4,5)]
    by (intro tick_slice_ticks) simp_all
  then show ?thesis
    by (simp add: tick_no_sleepers ns add.commute)
qed

lemma run_ticks_shift:
  "no_sleepers s \<Longrightarrow> 100 \<le> n \<Longrightarrow> n + k < 2 ^ 32 \<Longrightarrow> 100 \<le> m \<Longrightarrow> m + k < 2 ^ 32 \<Longrightarrow>
   map running_id (run_ticks k (s\<lparr>system_ticks := of_nat n\<rparr>)) =
   map running_id (run_ticks k (s\<lparr>system_ticks := of_nat m\<rparr>))"
proof (induction k arbitrary: s n m)
  case 0
  show ?case by (simp add: running_id_def split: option.splits)
next
  case (Suc k)
  let ?s' = "scheduler_tick (s\<lparr>system_ticks := of_nat m\<rparr>)"
  have nsm: "no_sleepers (s\<lparr>system_ticks := of_nat m\<rparr>)"
    using Suc.prems(1) by (simp add: no_sleepers_def)
  have ns': "no_sleepers ?s'"
    using nsm by (rule tick_keeps_no_sleepers)
  have cnt: "system_ticks ?s' = of_nat (Suc m)"
    using tick_counter [OF nsm] by (simp add: add.commute)
  have self: "?s'\<lparr>system_ticks := of_nat (Suc m)\<rparr> = ?s'"
    using cnt by (metis sched.surjective sched.update_convs(6))
  have step: "scheduler_tick (s\<lparr>system_ticks := of_nat n\<rparr>) =
      ?s'\<lparr>system_ticks := of_nat (Suc n)\<rparr>"
    using Suc.prems by (intro tick_shift) simp_all
  have ih: "map running_id (run_ticks k (?s'\<lparr>system_ticks := of_nat (Suc n)\<rparr>)) =
        map running_id (run_ticks k (?s'\<lparr>system_ticks := of_nat (Suc m)\<rparr>))"
    using Suc.prems ns' by (intro Suc.IH) simp_all
  have hd: "running_id (s\<lparr>system_ticks := of_nat n\<rparr>) =
      running_id (s\<lparr>system_ticks := of_nat m\<rparr>)"
    by (simp add: running_id_def split: option.splits)
  have l: "run_ticks (Suc k) (s\<lparr>system_ticks := of_nat n\<rparr>) =
           s\<lparr>system_ticks := of_nat n\<rparr> # run_ticks k (?s'\<lparr>system_ticks := of_nat (Suc n)\<rparr>)"
    by (simp only: run_ticks.simps step)
  have r: "run_ticks (Suc k) (s\<lparr>system_ticks := of_nat m\<rparr>) =
           s\<lparr>system_ticks := of_nat m\<rparr> # run_ticks k (?s'\<lparr>system_ticks := of_nat (Suc m)\<rparr>)"
    by (simp only: run_ticks.simps self)
  show ?case
    by (simp only: l r list.map ih hd)
qed

subsection \<open>Scenario B\<close>

lemma three_tasks_idle:
  "no_sleepers three_tasks" "current_task three_tasks = None" "system_ticks three_tasks = 0"
  by (simp_all add: three_tasks_def no_sleepers_def sched_eval)

lemma grace_ticks: "(scheduler_tick ^^ n) three_tasks = three_tasks\<lparr>system_ticks := of_nat n\<rparr>"
proof (induction n)
  case 0
  show ?case using three_tasks_idle(3) by (simp add: sched.equality)
next
  case (Suc n)
  have ns: "no_sleepers (three_tasks\<lparr>system_ticks := of_nat n\<rparr>)"
    using three_tasks_idle(1) by (simp add: no_sleepers_def)
  show ?case
    using three_tasks_idle(2)
    by (simp add: Suc tick_no_sleepers [OF ns] tick_slice_def add.commute)
qed

lemma scenario_B_at_100:
  "execution_order 35 ((schedule three_tasks)\<lparr>system_ticks := 100\<rparr>) =
     [Some 1, Some 2, Some 3, Some 1]"
  by (simp add: three_tasks_def execution_order_def running_id_def run_ticks_numeral sched_eval)

text \<open>
  C6, as stated, fails on the code: after A, B, C are created nothing installs a first
  task. \<open>scheduler_tick\<close> calls \<open>schedule\<close> only behind the guard \<open>current_task && ...\<close>,
  and \<open>current_task\<close> is \<open>NULL\<close> until somebody calls \<open>schedule\<close>. With no voluntary call,
  35 ticks past the grace window (101 ticks have gone by) run no task at all.
\<close>

theorem scenario_B_nothing_runs:
  "execution_order 35 ((scheduler_tick ^^ 101) three_tasks) = [None]"
  by (simp add: three_tasks_def execution_order_def running_id_def run_ticks_numeral
        funpow_numeral_unfold sched_eval)

text \<open>
  C6, amended. Tasks A, B, C are created in that order with slice 10; \<open>n\<close> ticks go by,
  at least the 100 of the grace window; one call of \<open>schedule\<close> (what \<open>task_yield\<close> does)
  installs the first task. Then 35 further ticks with no voluntary yield, sleep or exit give
  the execution order A, B, C, A. The 32-bit tick counter is assumed not to wrap during the
  run.
\<close>

theorem scenario_B_round_robin:
  assumes "100 \<le> n" and "n + 35 < 2 ^ 32"
  shows "execution_order 35 (schedule ((scheduler_tick ^^ n) three_tasks)) =
           [Some 1, Some 2, Some 3, Some 1]"
proof -
  have ns: "no_sleepers (schedule three_tasks)"
    using three_tasks_idle(1) by (rule schedule_no_sleepers)
  have b: "(100::nat) \<le> 100" "(100::nat) + 35 < 2 ^ 32"
    by simp_all
  have e: "(of_nat 100 :: u32) = 100"
    by simp
  have "map running_id (run_ticks 35 ((schedule three_tasks)\<lparr>system_ticks := of_nat n\<rparr>)) =
        map running_id (run_ticks 35 ((schedule three_tasks)\<lparr>system_ticks := of_nat 100\<rparr>))"
    by (rule run_ticks_shift [OF ns assms b])
  then have "execution_order 35 ((schedule three_tasks)\<lparr>system_ticks := of_nat n\<rparr>) =
             execution_order 35 ((schedule three_tasks)\<lparr>system_ticks := 100\<rparr>)"
    unfolding execution_order_def by (simp only: e)
  then show ?thesis
    by (simp only: grace_ticks schedule_ticks scenario_B_at_100)
qed

theorem scenario_B_round_robin_witness:
  "(100::nat) \<le> 100 \<and> (100::nat) + 35 < 2 ^ 32 \<and>
   execution_order 35 (schedule ((scheduler_tick ^^ 100) three_tasks)) =
     [Some 1, Some 2, Some 3, Some 1]"
proof -
  have a: "(100::nat) \<le> 100" by simp
  have b: "(100::nat) + 35 < 2 ^ 32" by simp
  show ?thesis
    by (rule conjI [OF a conjI [OF b scenario_B_round_robin [OF a b]]])
qed


subsection \<open>Sleep\<close>

lemma asleep_queue_add:
  "asleep x w s \<Longrightarrow> i \<noteq> x \<Longrightarrow> asleep x w (task_queue_add i s)"
  by (auto simp add: asleep_def unlinked_def task_queue_add_def Let_def split: option.splits)

lemma asleep_remove_next:
  "asleep x w s \<Longrightarrow> asleep x w (snd (task_queue_remove_next s)) \<and>
     fst (task_queue_remove_next s) \<noteq> Some x"
  by (auto simp add: asleep_def unlinked_def task_queue_remove_next_def Let_def split: option.splits)

lemma asleep_switch:
  "asleep x w s \<Longrightarrow> n \<noteq> x \<Longrightarrow> asleep x w (switch_to_task n s)"
  by (auto simp add: asleep_def unlinked_def switch_to_task_def Let_def)

lemma asleep_schedule: "asleep x w s \<Longrightarrow> asleep x w (schedule s)"
  by (auto simp add: asleep_def unlinked_def schedule_def task_queue_remove_next_def switch_to_task_def task_queue_add_def Let_def split: option.splits)

lemma asleep_tasks_other:
  "asleep x w s \<Longrightarrow> c \<noteq> x \<Longrightarrow> t_next v = t_next (tasks s c) \<Longrightarrow>
   asleep x w (s\<lparr>tasks := (tasks s)(c := v)\<rparr>)"
  by (auto simp add: asleep_def unlinked_def)

lemma asleep_remaining:
  "asleep x w s \<Longrightarrow> asleep x w (s\<lparr>tasks := (tasks s)(c := (tasks s c)\<lparr>t_time_remaining := r\<rparr>)\<rparr>)"
  by (auto simp add: asleep_def unlinked_def)

lemma asleep_ticks: "asleep x w s \<Longrightarrow> asleep x w (s\<lparr>system_ticks := t\<rparr>)"
  by (auto simp add: asleep_def unlinked_def)

lemma asleep_current: "asleep x w s \<Longrightarrow> asleep x w (s\<lparr>current_task := t\<rparr>)"
  by (auto simp add: asleep_def unlinked_def)

lemma asleep_tick_slice: "asleep x w s \<Longrightarrow> asleep x w (tick_slice s)"
  by (auto simp add: tick_slice_def Let_def asleep_remaining asleep_schedule split: option.splits)

lemma asleep_wake_slot:
  "asleep x w s \<Longrightarrow> \<not> w \<le> system_ticks s \<Longrightarrow> asleep x w (wake_slot i s)"
proof (cases "i = x")
  case True
  assume "asleep x w s" "\<not> w \<le> system_ticks s"
  then show ?thesis using True by (simp add: wake_slot_def asleep_def)
next
  case False
  assume a: "asleep x w s"
  show ?thesis
    using False a
    by (simp add: wake_slot_def asleep_queue_add asleep_tasks_other)
qed

lemma wake_slot_ticks: "system_ticks (wake_slot i s) = system_ticks s"
  by (simp add: wake_slot_def task_queue_add_def Let_def split: option.splits)

lemma asleep_fold_wake:
  "asleep x w s \<Longrightarrow> \<not> w \<le> system_ticks s \<Longrightarrow> asleep x w (fold wake_slot xs s)"
  by (induction xs arbitrary: s) (simp_all add: asleep_wake_slot wake_slot_ticks)

lemma asleep_tick:
  "asleep x w s \<Longrightarrow> \<not> w \<le> system_ticks s + 1 \<Longrightarrow> asleep x w (scheduler_tick s)"
  by (simp add: scheduler_tick_def wake_tasks_def asleep_tick_slice asleep_fold_wake asleep_ticks)

lemma asleep_sleep:
  "asleep x w s \<Longrightarrow> current_task s \<noteq> Some x \<Longrightarrow> asleep x w (task_sleep j s)"
  by (auto simp add: task_sleep_def Let_def asleep_schedule asleep_tasks_other split: option.splits)

lemma asleep_exit:
  "asleep x w s \<Longrightarrow> current_task s \<noteq> Some x \<Longrightarrow> task_exit s = Some s' \<Longrightarrow> asleep x w s'"
  by (auto simp add: task_exit_def Let_def asleep_schedule asleep_tasks_other asleep_current split: option.splits)

lemma find_slot_state:
  "find (\<lambda>i. t_state (tasks s i) = TASK_TERMINATED) xs = Some i \<Longrightarrow>
   t_state (tasks s i) = TASK_TERMINATED"
  by (induction xs) (auto split: if_splits)

lemma asleep_create: "asleep x w s \<Longrightarrow> asleep x w (snd (task_create nm s))"
proof (cases "find (\<lambda>i. t_state (tasks s i) = TASK_TERMINATED) [0..<MAX_TASKS]")
  case None
  assume "asleep x w s"
  then show ?thesis using None by (simp add: task_create_def)
next
  case (Some i)
  assume a: "asleep x w s"
  have "t_state (tasks s i) = TASK_TERMINATED"
    using Some by (rule find_slot_state)
  then have ne: "i \<noteq> x"
    using a by (auto simp add: asleep_def)
  show ?thesis
    using Some ne a
    by (auto simp add: task_create_def Let_def asleep_def unlinked_def task_queue_add_def
          split: option.splits)
qed

lemma asleep_do_op:
  "asleep x w s \<Longrightarrow> \<not> calls_as x a s \<Longrightarrow> (a = Tick \<longrightarrow> \<not> w \<le> system_ticks s + 1) \<Longrightarrow>
   asleep x w (do_op a s)"
  by (cases a)
     (auto simp add: asleep_tick task_yield_def asleep_schedule asleep_sleep asleep_create
        intro: asleep_exit split: option.splits)

lemma switch_counter: "system_ticks (switch_to_task n s) = system_ticks s"
  by (simp add: switch_to_task_def Let_def)

lemma queue_add_counter: "system_ticks (task_queue_add n s) = system_ticks s"
  by (simp add: task_queue_add_def Let_def split: option.splits)

lemma fold_wake_counter: "system_ticks (fold wake_slot xs s) = system_ticks s"
  by (induction xs arbitrary: s) (simp_all add: wake_slot_ticks)

lemma scheduler_tick_counter: "system_ticks (scheduler_tick s) = system_ticks s + 1"
  by (simp add: scheduler_tick_def wake_tasks_def tick_slice_counter fold_wake_counter)

lemma do_op_counter:
  "system_ticks (do_op a s) = (if a = Tick then system_ticks s + 1 else system_ticks s)"
  by (cases a)
     (auto simp add: scheduler_tick_counter task_yield_def schedule_counter task_sleep_def
        task_exit_def task_create_def queue_add_counter Let_def split: option.splits)

lemma run_Cons: "run (a # ops) s = run ops (do_op a s)"
  by (simp add: run_def)

lemma ticks_in_Cons: "ticks_in (a # ops) = (if a = Tick then 1 else 0) + ticks_in ops"
  by (simp add: ticks_in_def)

lemma run_counter: "system_ticks (run ops s) = system_ticks s + of_nat (ticks_in ops)"
proof (induction ops arbitrary: s)
  case Nil
  show ?case by (simp add: run_def ticks_in_def)
next
  case (Cons a ops)
  show ?case by (simp add: run_Cons ticks_in_Cons do_op_counter Cons.IH)
qed

lemma asleep_run:
  "asleep x w s \<Longrightarrow> silent x ops s \<Longrightarrow>
   (ticks_in ops \<noteq> 0 \<longrightarrow> unat (system_ticks s) + ticks_in ops < unat w) \<Longrightarrow>
   asleep x w (run ops s)"
proof (induction ops arbitrary: s)
  case Nil
  then show ?case by (simp add: run_def)
next
  case (Cons a ops)
  have w32: "unat w < 2 ^ 32"
    using unsigned_less [of w] by simp
  show ?case
  proof (cases "a = Tick")
    case True
    have lt: "unat (system_ticks s) + 1 + ticks_in ops < unat w"
      using Cons.prems(3) True by (simp add: ticks_in_Cons)
    have cnt: "unat (system_ticks s + 1) = unat (system_ticks s) + 1"
      using lt w32 by (simp add: unat_word_ariths)
    have nw: "\<not> w \<le> system_ticks s + 1"
      using lt cnt by (simp add: word_le_nat_alt)
    have a1: "asleep x w (do_op a s)"
      using Cons.prems(1,2) nw by (intro asleep_do_op) simp_all
    have "asleep x w (run ops (do_op a s))"
      using Cons.prems(2) lt cnt a1 True
      by (intro Cons.IH) (simp_all add: scheduler_tick_counter)
    then show ?thesis by (simp add: run_Cons)
  next
    case False
    have a1: "asleep x w (do_op a s)"
      using Cons.prems(1,2) False by (intro asleep_do_op) simp_all
    have "asleep x w (run ops (do_op a s))"
      using Cons.prems(2,3) a1 False
      by (intro Cons.IH) (simp_all add: do_op_counter ticks_in_Cons)
    then show ?thesis by (simp add: run_Cons)
  qed
qed

lemma asleep_after_sleep:
  "current_task s = Some x \<Longrightarrow> unlinked s x \<Longrightarrow>
   asleep x (system_ticks s + k) (task_sleep k s)"
proof -
  assume c: "current_task s = Some x" and u: "unlinked s x"
  have "asleep x (system_ticks s + k)
          (s\<lparr>tasks := (tasks s)(x := (tasks s x)\<lparr>t_state := TASK_SLEEPING,
                t_sleep_until := system_ticks s + k\<rparr>)\<rparr>)"
    using u by (simp add: asleep_def unlinked_def)
  then have "asleep x (system_ticks s + k)
          (schedule (s\<lparr>tasks := (tasks s)(x := (tasks s x)\<lparr>t_state := TASK_SLEEPING,
                t_sleep_until := system_ticks s + k\<rparr>)\<rparr>))"
    by (rule asleep_schedule)
  then show ?thesis
    using c by (simp add: task_sleep_def Let_def)
qed

lemma task_sleep_counter: "system_ticks (task_sleep k s) = system_ticks s"
  by (simp add: task_sleep_def schedule_counter Let_def split: option.splits)

lemma wake_slot_other:
  "i \<noteq> x \<Longrightarrow> t_state (tasks (wake_slot i s) x) = t_state (tasks s x) \<and>
     t_sleep_until (tasks (wake_slot i s) x) = t_sleep_until (tasks s x)"
  by (simp add: wake_slot_def task_queue_add_def Let_def split: option.splits)

lemma fold_wake_other:
  "x \<notin> set xs \<Longrightarrow> t_state (tasks (fold wake_slot xs s) x) = t_state (tasks s x) \<and>
     t_sleep_until (tasks (fold wake_slot xs s) x) = t_sleep_until (tasks s x)"
  by (induction xs arbitrary: s) (simp_all add: wake_slot_other)

lemma wake_slot_self:
  "t_state (tasks s x) = TASK_SLEEPING \<Longrightarrow> t_sleep_until (tasks s x) \<le> system_ticks s \<Longrightarrow>
   t_state (tasks (wake_slot x s) x) = TASK_READY"
  by (simp add: wake_slot_def task_queue_add_def Let_def split: option.splits)

lemma wake_tasks_wakes:
  assumes "x < MAX_TASKS" "t_state (tasks s x) = TASK_SLEEPING"
      and "t_sleep_until (tasks s x) \<le> system_ticks s"
  shows "t_state (tasks (wake_tasks s) x) = TASK_READY"
proof -
  have split: "[0..<MAX_TASKS] = [0..<x] @ x # [Suc x..<MAX_TASKS]"
    using assms(1) by (metis le_add_diff_inverse less_imp_le_nat upt_add_eq_append upt_conv_Cons zero_le)
  let ?s1 = "fold wake_slot [0..<x] s"
  have s1: "t_state (tasks ?s1 x) = TASK_SLEEPING" "t_sleep_until (tasks ?s1 x) \<le> system_ticks ?s1"
    using assms(2,3) by (simp_all add: fold_wake_other fold_wake_counter)
  have "t_state (tasks (wake_slot x ?s1) x) = TASK_READY"
    using s1 by (rule wake_slot_self)
  then show ?thesis
    by (simp add: wake_tasks_def split fold_wake_other)
qed

lemma ready_tick_slice:
  "t_state (tasks s x) = TASK_READY \<Longrightarrow>
   t_state (tasks (tick_slice s) x) = TASK_READY \<or> t_state (tasks (tick_slice s) x) = TASK_RUNNING"
  by (auto simp add: tick_slice_def schedule_def task_queue_remove_next_def switch_to_task_def
        task_queue_add_def Let_def split: option.splits)

text \<open>
  C7, amended. Task \<open>x\<close> is current, sits in a slot of the task array and is not linked
  into the ready queue; it calls \<open>task_sleep k\<close> when the tick counter is \<open>T\<close>, and
  \<open>T + k\<close> stays below the 32-bit maximum. Whatever ticks, yields, task creations and
  sleep or exit calls of other tasks follow (\<open>ops\<close>), as long as \<open>x\<close> itself makes no further
  sleep or exit call and fewer than \<open>k\<close> ticks have gone by (the counter is below \<open>T + k\<close>),
  \<open>x\<close> is \<open>TASK_SLEEPING\<close>: not running, not ready. On the first tick that brings the counter
  to \<open>T + k\<close> or more (the \<open>k\<close>-th tick, or the next tick when \<open>k = 0\<close>) the wake-up loop
  marks \<open>x\<close> \<open>TASK_READY\<close>; at the end of that tick it is ready or already running.
\<close>

theorem sleep_until_wake:
  assumes cur: "current_task s = Some x" and slot: "x < MAX_TASKS" and unl: "unlinked s x"
      and nowrap: "unat (system_ticks s) + unat k + 1 < 2 ^ 32"
      and quiet: "silent x ops (task_sleep k s)"
      and early: "ticks_in ops \<le> unat k - 1"
  shows "t_state (tasks (run ops (task_sleep k s)) x) = TASK_SLEEPING \<and>
         (ticks_in ops = unat k - 1 \<longrightarrow>
            t_state (tasks (wake_tasks ((run ops (task_sleep k s))
               \<lparr>system_ticks := system_ticks (run ops (task_sleep k s)) + 1\<rparr>)) x) = TASK_READY \<and>
            (t_state (tasks (scheduler_tick (run ops (task_sleep k s))) x) = TASK_READY \<or>
             t_state (tasks (scheduler_tick (run ops (task_sleep k s))) x) = TASK_RUNNING))"
proof -
  let ?w = "system_ticks s + k"
  let ?s1 = "task_sleep k s"
  let ?s2 = "run ops ?s1"
  have w: "unat ?w = unat (system_ticks s) + unat k"
    using nowrap by (simp add: unat_word_ariths)
  have a1: "asleep x ?w ?s1"
    using cur unl by (rule asleep_after_sleep)
  have "ticks_in ops \<noteq> 0 \<longrightarrow> unat (system_ticks ?s1) + ticks_in ops < unat ?w"
    using early w by (auto simp add: task_sleep_counter)
  then have a2: "asleep x ?w ?s2"
    using a1 quiet by (intro asleep_run) simp_all
  have sl: "t_state (tasks ?s2 x) = TASK_SLEEPING" "t_sleep_until (tasks ?s2 x) = ?w"
    using a2 by (simp_all add: asleep_def)
  have woken: "t_state (tasks (wake_tasks (?s2\<lparr>system_ticks := system_ticks ?s2 + 1\<rparr>)) x) = TASK_READY"
    if last: "ticks_in ops = unat k - 1"
  proof -
    have c2: "system_ticks ?s2 + 1 = system_ticks s + of_nat (unat k - 1) + 1"
      using last by (simp add: run_counter task_sleep_counter)
    have "unat (system_ticks s + of_nat (unat k - 1) + 1) = unat (system_ticks s) + (unat k - 1) + 1"
      using nowrap by (simp add: unat_word_ariths unat_of_nat take_bit_nat_eq_self)
    then have "?w \<le> system_ticks ?s2 + 1"
      using w c2 by (simp add: word_le_nat_alt)
    then show ?thesis
      using slot sl by (intro wake_tasks_wakes) simp_all
  qed
  show ?thesis
    using sl(1) woken ready_tick_slice by (auto simp add: scheduler_tick_def)
qed


text \<open>
  C7, as stated, fails on the code in two ways.
  (1) A task that sleeps while the ready queue is empty stays \<open>current_task\<close> (\<open>schedule\<close>
  returns at once); the wake-up loop later links it into the queue, and when it then calls
  \<open>task_sleep 1000\<close> at tick 1, \<open>schedule\<close> dequeues that very task and marks it
  \<open>TASK_RUNNING\<close>, with the counter still 1.
  (2) \<open>system_ticks + ticks\<close> wraps: \<open>task_sleep 0xFFFFFFFF\<close> at tick 1 stores wake time 0,
  and the task is \<open>TASK_READY\<close> at tick 2.
\<close>

theorem sleep_wakes_early:
  "current_task (scheduler_tick (task_sleep 1 one_task_running)) = Some 0 \<and>
   system_ticks (scheduler_tick (task_sleep 1 one_task_running)) = 1 \<and>
   t_state (tasks (task_sleep 1000 (scheduler_tick (task_sleep 1 one_task_running))) 0) =
     TASK_RUNNING \<and>
   system_ticks (task_sleep 1000 (scheduler_tick (task_sleep 1 one_task_running))) = 1 \<and>
   current_task (scheduler_tick (schedule three_tasks)) = Some 0 \<and>
   system_ticks (scheduler_tick (schedule three_tasks)) = 1 \<and>
   t_state (tasks (scheduler_tick (task_sleep 0xFFFFFFFF
      (scheduler_tick (schedule three_tasks)))) 0) = TASK_READY \<and>
   system_ticks (scheduler_tick (task_sleep 0xFFFFFFFF
      (scheduler_tick (schedule three_tasks)))) = 2"
  by (simp add: one_task_running_def three_tasks_def sched_eval)

text \<open>Witness: A (slot 0) of A, B, C is running and sleeps for 3 ticks; a tick, a yield of
  the next task and a second tick follow; the third tick wakes A.\<close>

theorem sleep_until_wake_witness:
  "current_task (schedule three_tasks) = Some 0 \<and> 0 < MAX_TASKS \<and>
   unlinked (schedule three_tasks) 0 \<and>
   unat (system_ticks (schedule three_tasks)) + unat (3 :: u32) + 1 < 2 ^ 32 \<and>
   silent 0 [Tick, Yield, Tick] (task_sleep 3 (schedule three_tasks)) \<and>
   ticks_in [Tick, Yield, Tick] \<le> unat (3 :: u32) - 1 \<and>
   t_state (tasks (run [Tick, Yield, Tick] (task_sleep 3 (schedule three_tasks))) 0) =
     TASK_SLEEPING \<and>
   t_state (tasks (wake_tasks ((run [Tick, Yield, Tick] (task_sleep 3 (schedule three_tasks)))
      \<lparr>system_ticks :=
         system_ticks (run [Tick, Yield, Tick] (task_sleep 3 (schedule three_tasks))) + 1\<rparr>)) 0) =
     TASK_READY"
proof -
  have h1: "current_task (schedule three_tasks) = Some 0"
    by (simp add: three_tasks_def sched_eval)
  have h2: "0 < MAX_TASKS"
    by (simp add: MAX_TASKS_def)
  have h3: "unlinked (schedule three_tasks) 0"
    by (simp add: three_tasks_def unlinked_def sched_eval)
  have h4: "unat (system_ticks (schedule three_tasks)) + unat (3 :: u32) + 1 < 2 ^ 32"
    by (simp add: three_tasks_def sched_eval)
  have h5: "silent 0 [Tick, Yield, Tick] (task_sleep 3 (schedule three_tasks))"
    by (simp add: three_tasks_def sched_eval)
  have h6: "ticks_in [Tick, Yield, Tick] \<le> unat (3 :: u32) - 1"
    by (simp add: ticks_in_def)
  have h7: "ticks_in [Tick, Yield, Tick] = unat (3 :: u32) - 1"
    by (simp add: ticks_in_def)
  show ?thesis
    using h1 h2 h3 h4 h5 h6 h7 sleep_until_wake [OF h1 h2 h3 h4 h5 h6] by blast
qed

subsection \<open>Exit\<close>

text \<open>
  C8, as stated, fails on the code: \<open>task_exit\<close> returns to its caller, whether the ready
  queue is empty (one task, which is running) or not (A running, B and C queued).
  \<open>schedule\<close> returns at once on an empty queue, and \<open>switch_to_task\<close> only updates the
  bookkeeping.
\<close>

theorem task_exit_returns_example:
  "task_exit one_task_running \<noteq> None \<and> task_exit (schedule three_tasks) \<noteq> None"
  by (simp add: task_exit_def Let_def split: option.splits)

text \<open>
  C8, amended. A call of \<open>task_exit\<close> by the current task \<open>c\<close> (which is not itself at the
  head of the ready queue) marks \<open>c\<close> \<open>TASK_TERMINATED\<close>, clears \<open>current_task\<close> and calls
  \<open>schedule\<close>, and then returns to its caller in every case. With an empty ready queue
  nothing else changes and no task is current; otherwise the head of the queue becomes the
  current task, \<open>TASK_RUNNING\<close>.
\<close>

theorem task_exit_returns:
  assumes "current_task s = Some c" and "task_queue_head s \<noteq> Some c"
  shows "\<exists>s'. task_exit s = Some s' \<and>
           t_state (tasks s' c) = TASK_TERMINATED \<and>
           current_task s' = task_queue_head s \<and>
           (task_queue_head s = None \<longrightarrow>
              s' = s\<lparr>tasks := (tasks s)(c := (tasks s c)\<lparr>t_state := TASK_TERMINATED\<rparr>),
                     current_task := None\<rparr>) \<and>
           (\<forall>n. task_queue_head s = Some n \<longrightarrow> t_state (tasks s' n) = TASK_RUNNING)"
  using assms
  by (auto simp add: task_exit_def schedule_def task_queue_remove_next_def switch_to_task_def
        Let_def split: option.splits)

theorem task_exit_returns_witness:
  "current_task (schedule three_tasks) = Some 0 \<and>
   task_queue_head (schedule three_tasks) \<noteq> Some 0 \<and>
   (\<exists>s'. task_exit (schedule three_tasks) = Some s' \<and>
           t_state (tasks s' 0) = TASK_TERMINATED \<and>
           current_task s' = task_queue_head (schedule three_tasks) \<and>
           (task_queue_head (schedule three_tasks) = None \<longrightarrow>
              s' = (schedule three_tasks)\<lparr>tasks := (tasks (schedule three_tasks))(0 :=
                     (tasks (schedule three_tasks) 0)\<lparr>t_state := TASK_TERMINATED\<rparr>),
                     current_task := None\<rparr>) \<and>
           (\<forall>n. task_queue_head (schedule three_tasks) = Some n \<longrightarrow>
                  t_state (tasks s' n) = TASK_RUNNING))"
proof -
  have h1: "current_task (schedule three_tasks) = Some 0"
    by (simp add: three_tasks_def sched_eval)
  have h2: "task_queue_head (schedule three_tasks) \<noteq> Some 0"
    by (simp add: three_tasks_def sched_eval)
  show ?thesis
    using h1 h2 task_exit_returns [OF h1 h2] by blast
qed


section \<open>Heap allocator (mm.h, mm.c)\<close>

text \<open>
  The allocator manages one arena, the 1 MiB that starts at \<open>KERNEL_HEAP_START\<close>. The arena
  is a doubly linked list of blocks in address order; a block is a header \<open>mem_block_t\<close>
  followed by \<open>size\<close> payload bytes.
\<close>

definition KERNEL_HEAP_START :: u32 where
  "KERNEL_HEAP_START = 0x00200000"

definition KERNEL_HEAP_SIZE :: u32 where
  "KERNEL_HEAP_SIZE = 0x00100000"

text \<open>
  \<open>mem_block_t\<close>. The field \<open>is_free\<close> is an \<open>int\<close> that the allocator only ever sets to 0 or 1
  and only tests for being non-zero: a truth value here. \<open>next\<close> and \<open>prev\<close> are addresses of
  headers, 0 for \<open>NULL\<close>. On the 32-bit target the four fields take 4 bytes each, so
  \<open>sizeof(mem_block_t)\<close> is 16.
\<close>

record mem_block =
  b_size :: u32
  is_free :: bool
  b_next :: u32
  b_prev :: u32

definition sizeof_mem_block_t :: u32 where
  "sizeof_mem_block_t = 16"

record mem_stats_t =
  total_memory :: u32
  used_memory :: u32
  free_memory :: u32
  num_allocations :: u32
  num_frees :: u32
  largest_free_block :: u32

text \<open>
  The static variables of mm.c together with the memory they point into. Memory is kept as
  two stores: \<open>hdrs a\<close> is the header stored at address \<open>a\<close>, \<open>bytes a\<close> the payload byte at
  address \<open>a\<close>. The allocator reads and writes headers only through \<open>mem_block_t\<close> pointers,
  and payload only through \<open>memset\<close> and \<open>memcpy\<close>. The headers of a list that tiles the
  arena lie at least 16 bytes apart, so a write to one header changes no other and one cell
  for each header address is enough. The page tables that \<open>paging_init\<close> fills are read by no
  allocator function and are left out.
\<close>

record mm_state =
  heap_head :: u32
  heap_start :: u32
  heap_size :: u32
  mem_stats :: mem_stats_t
  hdrs :: "u32 \<Rightarrow> mem_block"
  bytes :: "u32 \<Rightarrow> u8"

text \<open>
  What the C code leaves undefined is a fault of the model: \<open>Divide_error\<close> is a division
  by zero (the CPU raises a divide error), \<open>Heap_overrun\<close> a \<open>memset\<close> or \<open>memcpy\<close> that would write past
  the payload of the block it was given, into the header that follows.
\<close>

datatype mm_fault = Divide_error | Heap_overrun

text \<open>
  \<open>memset\<close> and \<open>memcpy\<close>: \<open>while (count--) *d++ = ...\<close>. \<open>memset\<close> takes the value already
  converted to \<open>unsigned char\<close>.
\<close>

function memset :: "(u32 \<Rightarrow> u8) \<Rightarrow> u32 \<Rightarrow> u8 \<Rightarrow> u32 \<Rightarrow> (u32 \<Rightarrow> u8)" where
  "memset m d v count = (if count = 0 then m else memset (m(d := v)) (d + 1) v (count - 1))"
  by pat_completeness auto
termination
  by (relation "measure (\<lambda>(m, d, v, count). unat count)") (auto simp add: unat_minus_one unat_gt_0 diff_less)

function memcpy :: "(u32 \<Rightarrow> u8) \<Rightarrow> u32 \<Rightarrow> u32 \<Rightarrow> u32 \<Rightarrow> (u32 \<Rightarrow> u8)" where
  "memcpy m d s count = (if count = 0 then m else memcpy (m(d := m s)) (d + 1) (s + 1) (count - 1))"
  by pat_completeness auto
termination
  by (relation "measure (\<lambda>(m, d, s, count). unat count)") (auto simp add: unat_minus_one unat_gt_0 diff_less)

declare memset.simps [simp del] memcpy.simps [simp del]

text \<open>
  \<open>mm_init\<close>: one free block that spans the arena. The two arguments (the multiboot memory
  map) are only tested, never used.
\<close>

definition mm_init :: "mm_state \<Rightarrow> mm_state" where
  "mm_init s =
     (let s1 = s\<lparr>heap_start := KERNEL_HEAP_START\<rparr>;
          s2 = s1\<lparr>heap_size := KERNEL_HEAP_SIZE\<rparr>;
          s3 = s2\<lparr>heap_head := heap_start s2\<rparr>;
          s4 = s3\<lparr>hdrs := (hdrs s3)(heap_head s3 :=
                 \<lparr>b_size = heap_size s3 - sizeof_mem_block_t, is_free = True,
                  b_next = 0, b_prev = 0\<rparr>)\<rparr>
      in s4\<lparr>mem_stats :=
             \<lparr>total_memory = heap_size s4,
              used_memory = 0,
              free_memory = b_size (hdrs s4 (heap_head s4)),
              num_allocations = 0,
              num_frees = 0,
              largest_free_block = b_size (hdrs s4 (heap_head s4))\<rparr>\<rparr>)"

text \<open>
  The loop of \<open>find_free_block\<close>, started at \<open>current\<close>; the result 0 is \<open>NULL\<close>. The loop
  follows \<open>next\<close> pointers and has no bound of its own: \<open>None\<close> is a loop that does not end.
\<close>

partial_function (option) find_free_block_from ::
    "(u32 \<Rightarrow> mem_block) \<Rightarrow> u32 \<Rightarrow> u32 \<Rightarrow> u32 option" where
  "find_free_block_from h current sz =
     (if current = 0 then Some 0
      else if is_free (h current) \<and> sz \<le> b_size (h current) then Some current
      else find_free_block_from h (b_next (h current)) sz)"

definition find_free_block :: "mm_state \<Rightarrow> u32 \<Rightarrow> u32 option" where
  "find_free_block s sz = find_free_block_from (hdrs s) (heap_head s) sz"

text \<open>
  \<open>split_block\<close>. The test \<open>block->size > size + sizeof(mem_block_t) + 32\<close> is in
  \<open>size_t\<close> arithmetic.
\<close>

definition split_block :: "(u32 \<Rightarrow> mem_block) \<Rightarrow> u32 \<Rightarrow> u32 \<Rightarrow> (u32 \<Rightarrow> mem_block)" where
  "split_block h block sz =
     (if sz + sizeof_mem_block_t + 32 < b_size (h block)
      then let new_block = block + sizeof_mem_block_t + sz;
               h1 = h(new_block :=
                      \<lparr>b_size = b_size (h block) - sz - sizeof_mem_block_t, is_free = True,
                       b_next = b_next (h block), b_prev = block\<rparr>);
               h2 = (if b_next (h1 block) \<noteq> 0
                     then h1(b_next (h1 block) := (h1 (b_next (h1 block)))\<lparr>b_prev := new_block\<rparr>)
                     else h1);
               h3 = h2(block := (h2 block)\<lparr>b_next := new_block\<rparr>)
           in h3(block := (h3 block)\<lparr>b_size := sz\<rparr>)
      else h)"

text \<open>
  One pass of either loop of \<open>merge_free_blocks\<close>: the block \<open>keep\<close> absorbs its successor
  \<open>gone\<close>. In the first loop \<open>keep\<close> is \<open>block\<close> and \<open>gone\<close> is \<open>block->next\<close>; in the second
  \<open>keep\<close> is \<open>block->prev\<close> and \<open>gone\<close> is \<open>block\<close>.
\<close>

definition absorb :: "(u32 \<Rightarrow> mem_block) \<Rightarrow> u32 \<Rightarrow> u32 \<Rightarrow> (u32 \<Rightarrow> mem_block)" where
  "absorb h keep gone =
     (let h1 = h(keep := (h keep)\<lparr>b_size := b_size (h keep) + (b_size (h gone) + sizeof_mem_block_t)\<rparr>);
          h2 = h1(keep := (h1 keep)\<lparr>b_next := b_next (h1 gone)\<rparr>)
      in if b_next (h2 gone) \<noteq> 0
         then h2(b_next (h2 gone) := (h2 (b_next (h2 gone)))\<lparr>b_prev := keep\<rparr>)
         else h2)"

partial_function (option) merge_next :: "(u32 \<Rightarrow> mem_block) \<Rightarrow> u32 \<Rightarrow> (u32 \<Rightarrow> mem_block) option" where
  "merge_next h block =
     (if b_next (h block) \<noteq> 0 \<and> is_free (h (b_next (h block)))
      then merge_next (absorb h block (b_next (h block))) block
      else Some h)"

partial_function (option) merge_prev :: "(u32 \<Rightarrow> mem_block) \<Rightarrow> u32 \<Rightarrow> (u32 \<Rightarrow> mem_block) option" where
  "merge_prev h block =
     (if b_prev (h block) \<noteq> 0 \<and> is_free (h (b_prev (h block)))
      then merge_prev (absorb h (b_prev (h block)) block) (b_prev (h block))
      else Some h)"

definition merge_free_blocks :: "(u32 \<Rightarrow> mem_block) \<Rightarrow> u32 \<Rightarrow> (u32 \<Rightarrow> mem_block) option" where
  "merge_free_blocks h block =
     (case merge_next h block of None \<Rightarrow> None | Some h1 \<Rightarrow> merge_prev h1 block)"

text \<open>\<open>(size + 7) & ~7\<close>, the rounding at the head of \<open>kmalloc\<close>.\<close>

definition align8 :: "u32 \<Rightarrow> u32" where
  "align8 sz = (sz + 7) AND NOT 7"

text \<open>
  \<open>kmalloc\<close> returns the pointer (0 for \<open>NULL\<close>) and the new state; \<open>kfree\<close> the new state.
  \<open>None\<close> is a call that does not return.
\<close>

definition kmalloc :: "mm_state \<Rightarrow> u32 \<Rightarrow> (u32 \<times> mm_state) option" where
  "kmalloc s sz0 =
     (if sz0 = 0 then Some (0, s)
      else let sz = align8 sz0
           in case find_free_block s sz of
                None \<Rightarrow> None
              | Some block \<Rightarrow>
                  if block = 0 then Some (0, s)
                  else let h1 = split_block (hdrs s) block sz;
                           h2 = h1(block := (h1 block)\<lparr>is_free := False\<rparr>);
                           st = mem_stats s;
                           st1 = st\<lparr>used_memory := used_memory st + b_size (h2 block)\<rparr>;
                           st2 = st1\<lparr>free_memory := free_memory st1 - b_size (h2 block)\<rparr>;
                           st3 = st2\<lparr>num_allocations := num_allocations st2 + 1\<rparr>
                       in Some (block + sizeof_mem_block_t, s\<lparr>hdrs := h2, mem_stats := st3\<rparr>))"

definition kfree :: "mm_state \<Rightarrow> u32 \<Rightarrow> mm_state option" where
  "kfree s ptr =
     (if ptr = 0 then Some s
      else let block = ptr - sizeof_mem_block_t
           in if is_free (hdrs s block) then Some s
              else let h1 = (hdrs s)(block := (hdrs s block)\<lparr>is_free := True\<rparr>);
                       st = mem_stats s;
                       st1 = st\<lparr>used_memory := used_memory st - b_size (h1 block)\<rparr>;
                       st2 = st1\<lparr>free_memory := free_memory st1 + b_size (h1 block)\<rparr>;
                       st3 = st2\<lparr>num_frees := num_frees st2 + 1\<rparr>
                   in case merge_free_blocks h1 block of
                        None \<Rightarrow> None
                      | Some h2 \<Rightarrow> Some (s\<lparr>hdrs := h2, mem_stats := st3\<rparr>))"

text \<open>
  \<open>krealloc\<close>. When the block is large enough it is split in place at \<open>new_size\<close>, as the
  caller passed it; otherwise the payload moves to a new block. \<open>block->size\<close> in the
  \<open>memcpy\<close> call is read after \<open>kmalloc\<close> has returned.
\<close>

definition krealloc :: "mm_state \<Rightarrow> u32 \<Rightarrow> u32 \<Rightarrow> (mm_fault + u32 \<times> mm_state) option" where
  "krealloc s ptr new_size =
     (if ptr = 0 then map_option Inr (kmalloc s new_size)
      else if new_size = 0 then map_option (\<lambda>s'. Inr (0, s')) (kfree s ptr)
      else let block = ptr - sizeof_mem_block_t
           in if new_size \<le> b_size (hdrs s block)
              then Some (Inr (ptr, s\<lparr>hdrs := split_block (hdrs s) block new_size\<rparr>))
              else case kmalloc s new_size of
                     None \<Rightarrow> None
                   | Some (new_ptr, s1) \<Rightarrow>
                       if new_ptr = 0 then Some (Inr (new_ptr, s1))
                       else let n = (if b_size (hdrs s1 block) < new_size
                                     then b_size (hdrs s1 block) else new_size)
                            in if b_size (hdrs s1 (new_ptr - sizeof_mem_block_t)) < n
                               then Some (Inl Heap_overrun)
                               else case kfree (s1\<lparr>bytes := memcpy (bytes s1) new_ptr ptr n\<rparr>) ptr of
                                      None \<Rightarrow> None
                                    | Some s2 \<Rightarrow> Some (Inr (new_ptr, s2)))"

text \<open>
  \<open>kcalloc\<close>. The overflow check \<open>total_size / count != size\<close> divides by \<open>count\<close> before
  anything has looked at \<open>count\<close>.
\<close>

definition kcalloc :: "mm_state \<Rightarrow> u32 \<Rightarrow> u32 \<Rightarrow> (mm_fault + u32 \<times> mm_state) option" where
  "kcalloc s count sz =
     (let total_size = count * sz
      in if count = 0 then Some (Inl Divide_error)
         else if total_size div count \<noteq> sz then Some (Inr (0, s))
         else case kmalloc s total_size of
                None \<Rightarrow> None
              | Some (ptr, s1) \<Rightarrow>
                  if ptr = 0 then Some (Inr (ptr, s1))
                  else if b_size (hdrs s1 (ptr - sizeof_mem_block_t)) < total_size
                       then Some (Inl Heap_overrun)
                       else Some (Inr (ptr, s1\<lparr>bytes := memset (bytes s1) ptr 0 total_size\<rparr>)))"

subsection \<open>The block list and the counters\<close>

text \<open>The addresses of the headers on the list from \<open>p\<close>, following \<open>next\<close>.\<close>

partial_function (option) block_addrs :: "(u32 \<Rightarrow> mem_block) \<Rightarrow> u32 \<Rightarrow> u32 list option" where
  "block_addrs h p =
     (if p = 0 then Some []
      else Option.bind (block_addrs h (b_next (h p))) (\<lambda>as. Some (p # as)))"

text \<open>
  \<open>tiles h q as lo hi\<close>: the blocks at addresses \<open>as\<close> lie back to back from address \<open>lo\<close> to
  address \<open>hi\<close>, each header (16 bytes) directly followed by its payload and that by the next
  header, and each \<open>prev\<close> names the block before (\<open>q\<close> for the first). Addresses are taken
  as natural numbers, so nothing wraps.
\<close>

fun tiles :: "(u32 \<Rightarrow> mem_block) \<Rightarrow> u32 \<Rightarrow> u32 list \<Rightarrow> nat \<Rightarrow> nat \<Rightarrow> bool" where
  "tiles h q [] lo hi = (lo = hi)"
| "tiles h q (a # as) lo hi =
     (unat a = lo \<and> b_prev (h a) = q \<and> tiles h a as (lo + 16 + unat (b_size (h a))) hi)"

text \<open>The block list tiles the arena: no gap and no overlap from its first to its last byte.\<close>

definition heap_tiled :: "mm_state \<Rightarrow> bool" where
  "heap_tiled s =
     (heap_start s = KERNEL_HEAP_START \<and> heap_size s = KERNEL_HEAP_SIZE \<and>
      (case block_addrs (hdrs s) (heap_head s) of
         None \<Rightarrow> False
       | Some as \<Rightarrow>
           as \<noteq> [] \<and>
           tiles (hdrs s) 0 as (unat (heap_start s)) (unat (heap_start s) + unat (heap_size s))))"

text \<open>
  A pointer that a caller may pass to \<open>kfree\<close> or \<open>krealloc\<close>: \<open>NULL\<close> or the payload address of
  a block on the list.
\<close>

definition block_ptr :: "mm_state \<Rightarrow> u32 \<Rightarrow> bool" where
  "block_ptr s ptr =
     (ptr = 0 \<or>
      (case block_addrs (hdrs s) (heap_head s) of
         None \<Rightarrow> False
       | Some as \<Rightarrow> ptr - sizeof_mem_block_t \<in> set as))"



text \<open>The same calls as a script, run from the heap that \<open>mm_init\<close> sets up at boot.\<close>

datatype mm_call = Kmalloc u32 | Kfree u32 | Krealloc u32 u32

fun mm_step :: "mm_call \<Rightarrow> mm_state \<Rightarrow> mm_state option" where
  "mm_step (Kmalloc n) s = (case kmalloc s n of Some (ptr, s') \<Rightarrow> Some s' | None \<Rightarrow> None)"
| "mm_step (Kfree ptr) s = (if block_ptr s ptr then kfree s ptr else None)"
| "mm_step (Krealloc ptr n) s =
     (if block_ptr s ptr
      then case krealloc s ptr n of Some (Inr (ptr', s')) \<Rightarrow> Some s' | _ \<Rightarrow> None
      else None)"

fun mm_run :: "mm_call list \<Rightarrow> mm_state \<Rightarrow> mm_state option" where
  "mm_run [] s = Some s"
| "mm_run (c # calls) s = (case mm_step c s of None \<Rightarrow> None | Some s' \<Rightarrow> mm_run calls s')"

definition boot_mem :: mm_state where
  "boot_mem =
     \<lparr>heap_head = 0, heap_start = 0, heap_size = 0,
      mem_stats = \<lparr>total_memory = 0, used_memory = 0, free_memory = 0, num_allocations = 0,
                   num_frees = 0, largest_free_block = 0\<rparr>,
      hdrs = (\<lambda>_. \<lparr>b_size = 0, is_free = False, b_next = 0, b_prev = 0\<rparr>),
      bytes = (\<lambda>_. 0)\<rparr>"

text \<open>The total header overhead of the blocks that exist: 16 bytes for each.\<close>

definition header_overhead :: "mm_state \<Rightarrow> u32" where
  "header_overhead s =
     (case block_addrs (hdrs s) (heap_head s) of
        None \<Rightarrow> 0
      | Some as \<Rightarrow> of_nat (length as) * sizeof_mem_block_t)"

text \<open>Two blocks next to each other on the list are both free.\<close>

fun adjacent_free :: "(u32 \<Rightarrow> mem_block) \<Rightarrow> u32 list \<Rightarrow> bool" where
  "adjacent_free h (a # b # as) = ((is_free (h a) \<and> is_free (h b)) \<or> adjacent_free h (b # as))"
| "adjacent_free h _ = False"

definition no_adjacent_free :: "mm_state \<Rightarrow> bool" where
  "no_adjacent_free s =
     (case block_addrs (hdrs s) (heap_head s) of
        None \<Rightarrow> False
      | Some as \<Rightarrow> \<not> adjacent_free (hdrs s) as)"

definition after :: "mm_call list \<Rightarrow> mm_state" where
  "after calls = (case mm_run calls (mm_init boot_mem) of Some s \<Rightarrow> s | None \<Rightarrow> boot_mem)"

text \<open>
  A heap whose list is a free block of size 50, a free block of size 200 and a used block
  that takes the rest of the arena.
\<close>

definition two_free_blocks :: mm_state where
  "two_free_blocks =
     \<lparr>heap_head = 0x200000, heap_start = KERNEL_HEAP_START, heap_size = KERNEL_HEAP_SIZE,
      mem_stats = \<lparr>total_memory = 0x100000, used_memory = 0xFFED6, free_memory = 250,
                   num_allocations = 1, num_frees = 0, largest_free_block = 200\<rparr>,
      hdrs = (\<lambda>_. \<lparr>b_size = 0, is_free = False, b_next = 0, b_prev = 0\<rparr>)
        (0x200000 := \<lparr>b_size = 50, is_free = True, b_next = 0x200042, b_prev = 0\<rparr>,
         0x200042 := \<lparr>b_size = 200, is_free = True, b_next = 0x20011A, b_prev = 0x200000\<rparr>,
         0x20011A := \<lparr>b_size = 0xFFED6, is_free = False, b_next = 0, b_prev = 0x200042\<rparr>),
      bytes = (\<lambda>_. 0)\<rparr>"


section \<open>Heap allocator: properties\<close>

subsection \<open>Doubly linked segments of the block list\<close>















subsection \<open>Word arithmetic inside the arena\<close>






subsection \<open>Splitting a block of the list\<close>


subsection \<open>Absorbing the successor\<close>


subsection \<open>The same steps in the middle of the list\<close>







subsection \<open>The two loops of \<open>merge_free_blocks\<close>\<close>



subsection \<open>The block list of a state\<close>














subsection \<open>\<open>kmalloc\<close>\<close>








subsection \<open>\<open>kfree\<close>\<close>


subsection \<open>\<open>krealloc\<close>\<close>



subsection \<open>Evaluating the allocator on concrete heaps\<close>

lemmas mm_eval = mm_init_def kmalloc_def kfree_def krealloc_def kcalloc_def find_free_block_def
  find_free_block_from.simps split_block_def absorb_def merge_next.simps merge_prev.simps
  merge_free_blocks_def align8_def block_addrs.simps block_ptr_def sizeof_mem_block_t_def
  KERNEL_HEAP_START_def KERNEL_HEAP_SIZE_def boot_mem_def header_overhead_def
  no_adjacent_free_def heap_tiled_def after_def two_free_blocks_def
  Let_def word_le_nat_alt word_less_nat_alt

subsection \<open>Rounding, overflow check and zero fill\<close>

lemma and_not_7: "x AND NOT 7 = push_bit 3 (drop_bit 3 x)" for x :: u32
proof -
  have "x AND NOT (mask 3) = push_bit 3 (drop_bit 3 x)"
    by (rule bit_eqI) (auto simp add: bit_simps)
  then show ?thesis
    by (simp add: mask_eq_exp_minus_1)
qed

lemma unat_round_down: "unat (push_bit 3 (drop_bit 3 x) :: u32) = unat x div 8 * 8"
proof -
  have lt: "unat x < 2 ^ 32"
    using unsigned_less [of x, where 'a = nat] by simp
  have d: "unat (drop_bit 3 x) = unat x div 8"
    by (simp add: drop_bit_eq_div unat_div)
  have "unat (drop_bit 3 x) * unat (8 :: u32) < 2 ^ LENGTH(32)"
    using lt d by simp
  then have "unat (drop_bit 3 x * 8) = unat (drop_bit 3 x) * unat (8 :: u32)"
    by (simp only: unat_mult_lem)
  then show ?thesis
    using d by (simp add: push_bit_eq_mult)
qed

lemma align8_rounds_up:
  assumes "unat n + 7 < 2 ^ 32"
  shows "unat (align8 n) = (unat n + 7) div 8 * 8"
proof -
  have "unat (n + 7) = unat n + 7"
    using assms by (simp add: unat_word_ariths)
  then show ?thesis
    by (simp only: align8_def and_not_7 unat_round_down)
qed


lemma align8_60: "align8 60 = 64"
  by (simp add: align8_def)

lemma kcalloc_guard:
  assumes "count \<noteq> 0"
  shows "((count * sz) div count \<noteq> sz) = (2 ^ 32 \<le> unat count * unat (sz :: u32))"
proof (cases "unat count * unat sz < 2 ^ 32")
  case True
  then have "unat count * unat sz < 2 ^ LENGTH(32)"
    by simp
  then have "unat (count * sz) = unat count * unat sz"
    by (simp only: unat_mult_lem)
  moreover have "0 < unat count"
    using assms by (simp add: unat_gt_0)
  ultimately have "unat ((count * sz) div count) = unat sz"
    by (simp add: unat_div)
  then have "(count * sz) div count = sz"
    by (simp add: word_unat_eq_iff)
  then show ?thesis using True by simp
next
  case False
  have c: "0 < unat count"
    using assms by (simp add: unat_gt_0)
  have "unat (count * sz) < 2 ^ 32"
    using unsigned_less [of "count * sz", where 'a = nat] by simp
  then have "unat (count * sz) < unat count * unat sz"
    using False by simp
  then have "unat (count * sz) div unat count < unat sz"
    using c by (simp add: less_mult_imp_div_less mult.commute)
  then have "unat ((count * sz) div count) \<noteq> unat sz"
    by (simp add: unat_div)
  then have "(count * sz) div count \<noteq> sz"
    by auto
  then show ?thesis using False by simp
qed

lemma kcalloc_overflow:
  "count \<noteq> 0 \<Longrightarrow> 2 ^ 32 \<le> unat count * unat sz \<Longrightarrow> kcalloc s count sz = Some (Inr (0, s))"
  using kcalloc_guard [of count sz] by (simp add: kcalloc_def Let_def)

lemma kcalloc_no_overflow:
  assumes "count \<noteq> 0" "unat count * unat sz < 2 ^ 32"
  shows "kcalloc s count sz =
           (case kmalloc s (count * sz) of
              None \<Rightarrow> None
            | Some (ptr, s1) \<Rightarrow>
                if ptr = 0 then Some (Inr (0, s1))
                else if b_size (hdrs s1 (ptr - sizeof_mem_block_t)) < count * sz
                     then Some (Inl Heap_overrun)
                     else Some (Inr (ptr, s1\<lparr>bytes := memset (bytes s1) ptr 0 (count * sz)\<rparr>)))"
proof -
  have "(count * sz) div count = sz"
    using kcalloc_guard [of count sz] assms by simp
  then show ?thesis
    using assms(1) by (auto simp add: kcalloc_def Let_def split: option.splits)
qed

lemma memset_outside:
  "\<forall>i < unat count. a \<noteq> d + of_nat i \<Longrightarrow> memset m d v count a = m a"
proof (induction m d v count rule: memset.induct)
  case (1 m d v count)
  show ?case
  proof (cases "count = 0")
    case True
    then show ?thesis by (simp add: memset.simps)
  next
    case False
    then have u: "unat count = Suc (unat (count - 1))"
      by (simp add: unat_minus_one unat_gt_0)
    have a0: "a \<noteq> d"
      using 1(2) [rule_format, of 0] u by simp
    have "\<forall>i < unat (count - 1). a \<noteq> d + 1 + of_nat i"
    proof (intro allI impI)
      fix i
      assume "i < unat (count - 1)"
      then have "Suc i < unat count"
        using u by simp
      then have "a \<noteq> d + of_nat (Suc i)"
        using 1(2) by blast
      then show "a \<noteq> d + 1 + of_nat i"
        by (simp add: add.assoc)
    qed
    then have "memset (m(d := v)) (d + 1) v (count - 1) a = (m(d := v)) a"
      using 1(1) [OF False] by blast
    then show ?thesis
      using False a0 by (subst memset.simps) simp
  qed
qed

lemma memset_fills:
  "i < unat count \<Longrightarrow> memset m d v count (d + of_nat i) = v"
proof (induction m d v count arbitrary: i rule: memset.induct)
  case (1 m d v count)
  have c: "count \<noteq> 0"
    using 1(2) by auto
  then have u: "unat count = Suc (unat (count - 1))"
    by (simp add: unat_minus_one unat_gt_0)
  show ?case
  proof (cases i)
    case 0
    have lt: "unat (count - 1) < 2 ^ 32"
      using unsigned_less [of "count - 1", where 'a = nat] by simp
    have "\<forall>j < unat (count - 1). d \<noteq> d + 1 + of_nat j"
    proof (intro allI impI)
      fix j
      assume j: "j < unat (count - 1)"
      have "unat (of_nat (Suc j) :: u32) = Suc j"
        using j u unsigned_less [of count, where 'a = nat]
        by (simp only: unat_of_nat) simp
      then have "(of_nat (Suc j) :: u32) \<noteq> 0"
        by auto
      then show "d \<noteq> d + 1 + of_nat j"
        by (simp add: add.assoc)
    qed
    then have "memset (m(d := v)) (d + 1) v (count - 1) d = (m(d := v)) d"
      by (rule memset_outside)
    then show ?thesis
      using c 0 by (subst memset.simps) simp
  next
    case (Suc j)
    then have "j < unat (count - 1)"
      using 1(2) u by simp
    then have "memset (m(d := v)) (d + 1) v (count - 1) (d + 1 + of_nat j) = v"
      using 1(1) [OF c] by blast
    then show ?thesis
      using c Suc by (subst memset.simps) (simp add: add.assoc)
  qed
qed

subsection \<open>Reachable heaps\<close>






subsection \<open>Conservation\<close>




subsection \<open>Coalescing\<close>

text \<open>
  C2 fails on the code. \<open>X = kmalloc(8)\<close> and \<open>A = kmalloc(104)\<close> after \<open>mm_init\<close> give
  \<open>X = 0x200010\<close> and \<open>A = 0x200028\<close>. \<open>krealloc(A, 8)\<close> shrinks A in place: \<open>split_block\<close>
  leaves a free remainder at \<open>0x200030\<close> directly in front of the free block at \<open>0x200090\<close>
  and does not merge the two. \<open>kfree(X)\<close> then merges only around X, whose successor A is in
  use; when it returns, the blocks at \<open>0x200030\<close> and \<open>0x200090\<close> are adjacent on the list and
  both free.
\<close>

theorem realloc_then_free_leaves_adjacent_free:
  "map_option fst (kmalloc (mm_init boot_mem) 8) = Some 0x200010 \<and>
   map_option fst (kmalloc (after [Kmalloc 8]) 104) = Some 0x200028 \<and>
   (case krealloc (after [Kmalloc 8, Kmalloc 104]) 0x200028 8 of
      Some (Inr (p, s')) \<Rightarrow> p = 0x200028 | _ \<Rightarrow> False) \<and>
   kfree (after [Kmalloc 8, Kmalloc 104, Krealloc 0x200028 8]) 0x200010 \<noteq> None \<and>
   mm_run [Kmalloc 8, Kmalloc 104, Krealloc 0x200028 8, Kfree 0x200010] (mm_init boot_mem) \<noteq> None \<and>
   block_addrs (hdrs (after [Kmalloc 8, Kmalloc 104, Krealloc 0x200028 8, Kfree 0x200010]))
     (heap_head (after [Kmalloc 8, Kmalloc 104, Krealloc 0x200028 8, Kfree 0x200010])) =
     Some [0x200000, 0x200018, 0x200030, 0x200090] \<and>
   is_free (hdrs (after [Kmalloc 8, Kmalloc 104, Krealloc 0x200028 8, Kfree 0x200010]) 0x200030) \<and>
   is_free (hdrs (after [Kmalloc 8, Kmalloc 104, Krealloc 0x200028 8, Kfree 0x200010]) 0x200090) \<and>
   \<not> no_adjacent_free (after [Kmalloc 8, Kmalloc 104, Krealloc 0x200028 8, Kfree 0x200010])"
  by (simp add: mm_eval)

subsection \<open>First fit\<close>



subsection \<open>Zeroed allocation\<close>

text \<open>
  C9 fails on the code for \<open>count = 0\<close>: \<open>kcalloc\<close> computes \<open>total_size / count\<close> before any
  test of \<open>count\<close>, so \<open>kcalloc(0, size)\<close> divides by zero, whatever \<open>size\<close> and the heap are.
  For a count other than 0 the check is exact (\<open>kcalloc_guard\<close>), an overflowing product gives
  \<open>NULL\<close> (\<open>kcalloc_overflow\<close>), and otherwise the call is \<open>kmalloc\<close> of the product followed by
  the zero fill (\<open>kcalloc_no_overflow\<close>, \<open>memset_fills\<close>).
\<close>

theorem kcalloc_zero_count_divides_by_zero:
  "kcalloc s 0 sz = Some (Inl Divide_error)"
  by (simp add: kcalloc_def)

end
